theory Spec2Isabelle
  imports Main "HOL-Library.AList"
begin

section \<open>Values and constants of the configuration flow\<close>

text \<open>
  The flow handles Python dictionaries whose keys are strings.  A dictionary that the code
  iterates, extends or tests for emptiness is an association list in insertion order
  (\<open>map_of\<close> is \<open>.get\<close>, \<open>AList.update\<close> is item assignment: it overwrites in place
  and appends a new key at the end, as a Python \<open>dict\<close> does).  A dictionary that is only
  looked up (the data fetched from the cloud) is a map.

  The values of the credential form are texts and check boxes.
\<close>

datatype field = Text string | Flag bool

text \<open>The values of an options bag: toggles, texts, numbers and the list of excluded tags.
  Numbers are carried along and tested for truth only; no arithmetic is done on them.\<close>

datatype opt_value = OBool bool | OStr string | ONum int | OList "string list"

type_synonym user_input = "(string \<times> field) list"
type_synonym options = "(string \<times> opt_value) list"
type_synonym messages = "(string \<times> string) list"

text \<open>Python truth of a looked-up value; a missing key gives \<open>None\<close>, which is false.\<close>

fun truthy :: "field option \<Rightarrow> bool" where
  "truthy None = False"
| "truthy (Some (Text s)) = (s \<noteq> [])"
| "truthy (Some (Flag b)) = b"

fun opt_truthy :: "opt_value option \<Rightarrow> bool" where
  "opt_truthy None = False"
| "opt_truthy (Some (OBool b)) = b"
| "opt_truthy (Some (OStr s)) = (s \<noteq> [])"
| "opt_truthy (Some (ONum n)) = (n \<noteq> 0)"
| "opt_truthy (Some (OList xs)) = (xs \<noteq> [])"

text \<open>\<open>str(x)\<close> on a form value.\<close>

fun py_str :: "field \<Rightarrow> string" where
  "py_str (Text s) = s"
| "py_str (Flag True) = ''True''"
| "py_str (Flag False) = ''False''"

text \<open>\<open>str.lower\<close>, on the ASCII letters; every other byte is kept.\<close>

definition lower_char :: "char \<Rightarrow> char" where
  "lower_char c =
     (case map_of (zip ''ABCDEFGHIJKLMNOPQRSTUVWXYZ'' ''abcdefghijklmnopqrstuvwxyz'') c of
        None \<Rightarrow> c
      | Some l \<Rightarrow> l)"

definition lower :: "string \<Rightarrow> string" where
  "lower s = map lower_char s"

text \<open>
  Modelled from the spec: the key and tag constants come from \<open>homeassistant.const\<close>,
  from the integration's \<open>const\<close> module and from \<open>solixapi.api\<close> (\<open>ApiCategories\<close>,
  \<open>SolixDeviceType\<close>), none of which is among the sources.  Section 3 of the specification
  names the tags as different tags: price, solarbank, inverter, PPS, powerpanel, the
  generic system type, the solarbank subcategories (energy, cutoff, fittings, solar info)
  and auto-upgrade.  Each constant is the text of its own identifier, so that different
  identifiers are different strings; no theorem uses more of them than that.
\<close>

definition CONF_USERNAME :: string where "CONF_USERNAME = ''username''"
definition CONF_PASSWORD :: string where "CONF_PASSWORD = ''password''"
definition CONF_COUNTRY_CODE :: string where "CONF_COUNTRY_CODE = ''country_code''"
definition ACCEPT_TERMS :: string where "ACCEPT_TERMS = ''accept_terms''"
definition EXAMPLESFOLDER :: string where "EXAMPLESFOLDER = ''examples''"
definition TESTMODE :: string where "TESTMODE = ''testmode''"
definition TESTFOLDER :: string where "TESTFOLDER = ''testfolder''"
definition ERROR_DETAIL :: string where "ERROR_DETAIL = ''error_detail''"
definition SHARED_ACCOUNT :: string where "SHARED_ACCOUNT = ''shared_account''"
definition TERMS_LINK :: string where "TERMS_LINK = ''terms_link''"
definition TC_LINK :: string where "TC_LINK = ''tc_link''"
definition DOMAIN :: string where "DOMAIN = ''anker_solix''"

definition site_price :: string where "site_price = ''site_price''"
definition device_auto_upgrade :: string where "device_auto_upgrade = ''device_auto_upgrade''"
definition solarbank_energy :: string where "solarbank_energy = ''solarbank_energy''"
definition solarbank_cutoff :: string where "solarbank_cutoff = ''solarbank_cutoff''"
definition solarbank_fittings :: string where "solarbank_fittings = ''solarbank_fittings''"
definition solarbank_solar_info :: string where
  "solarbank_solar_info = ''solarbank_solar_info''"
definition SYSTEM :: string where "SYSTEM = ''system''"
definition SOLARBANK :: string where "SOLARBANK = ''solarbank''"
definition INVERTER :: string where "INVERTER = ''inverter''"
definition PPS :: string where "PPS = ''pps''"
definition POWERPANEL :: string where "POWERPANEL = ''powerpanel''"

section \<open>Expansion of the exclusion set\<close>

text \<open>
  The first block of \<open>async_check_and_remove_devices\<close>.  The argument is \<open>set | None\<close>;
  \<open>if excluded:\<close> skips both \<open>None\<close> and the empty set.  The three tests run one after
  the other, each on the set as the tests before it left it.
\<close>

definition expand_excluded :: "string set option \<Rightarrow> string set option" where
  "expand_excluded excluded =
     (case excluded of
        None \<Rightarrow> None
      | Some ex0 \<Rightarrow>
          if ex0 = {} then Some ex0
          else
            let ex1 = (if {site_price, SOLARBANK, INVERTER, PPS, POWERPANEL} \<inter> ex0 \<noteq> {}
                       then ex0 \<union> {SYSTEM} else ex0);
                ex2 = (if {solarbank_energy, solarbank_cutoff, solarbank_fittings,
                           solarbank_solar_info} \<inter> ex1 \<noteq> {}
                       then ex1 \<union> {SOLARBANK} else ex1);
                ex3 = (if {device_auto_upgrade} \<inter> ex2 \<noteq> {}
                       then ex2 \<union> {SOLARBANK, INVERTER, PPS, POWERPANEL} else ex2)
            in Some ex3)"

text \<open>The three groups of tags the tests name, and the expansion with its three rules applied
  side by side to the given set (shown below to be what the code computes).\<close>

definition system_tags :: "string set" where
  "system_tags = {site_price, SOLARBANK, INVERTER, PPS, POWERPANEL}"

definition solarbank_tags :: "string set" where
  "solarbank_tags =
     {solarbank_energy, solarbank_cutoff, solarbank_fittings, solarbank_solar_info}"

definition managed_types :: "string set" where
  "managed_types = {SOLARBANK, INVERTER, PPS, POWERPANEL}"

definition expanded :: "string set \<Rightarrow> string set" where
  "expanded S =
     S \<union> (if system_tags \<inter> S \<noteq> {} then {SYSTEM} else {})
       \<union> (if solarbank_tags \<inter> S \<noteq> {} then {SOLARBANK} else {})
       \<union> (if device_auto_upgrade \<in> S then managed_types else {})"

section \<open>The host platform: configuration entries and the device registry\<close>

text \<open>
  Modelled from the spec: the host's configuration-entry store and device registry are not
  among the sources.  Section 6 gives their interface: the store lists the entries of a
  domain as an ordered sequence, an entry exposes \<open>unique_id\<close> and \<open>title\<close>; the
  registry lists the device records of an entry (each with \<open>id\<close> and
  \<open>serial_number\<close>) and removes a device by its id.  A device record may be linked to
  several entries and may lack a serial number.
\<close>

record cfg_entry =
  entry_id :: string
  domain :: string
  unique_id :: "string option"
  title :: string

record device_entry =
  dev_id :: string
  serial_number :: "string option"
  dev_config_entries :: "string set"

record hass =
  config_entries :: "cfg_entry list"
  device_registry :: "device_entry list"

definition async_entries :: "hass \<Rightarrow> string \<Rightarrow> cfg_entry list" where
  "async_entries h name = filter (\<lambda>e. domain e = name) (config_entries h)"

definition async_entries_for_config_entry ::
  "device_entry list \<Rightarrow> string \<Rightarrow> device_entry list" where
  "async_entries_for_config_entry registry eid =
     filter (\<lambda>d. eid \<in> dev_config_entries d) registry"

definition async_remove_device :: "device_entry list \<Rightarrow> string \<Rightarrow> device_entry list" where
  "async_remove_device registry i = filter (\<lambda>d. dev_id d \<noteq> i) registry"

section \<open>Device reconciliation\<close>

text \<open>
  The data fetched for the candidate account maps a serial number or site id to a record,
  of which only the \<open>type\<close> field is read.
\<close>

type_synonym apidata = "string \<rightharpoonup> (string \<rightharpoonup> string)"

text \<open>The mapping \<open>obsolete_user_devs\<close>: device id to serial number, in insertion order.\<close>

type_synonym obsolete = "(string \<times> string option) list"

text \<open>\<open>x or ""\<close> on a looked-up form value.\<close>

fun or_empty :: "field option \<Rightarrow> field" where
  "or_empty None = Text []"
| "or_empty (Some v) = (if truthy (Some v) then v else Text [])"

text \<open>\<open>str(user_input.get(CONF_USERNAME) or "").lower()\<close>\<close>

definition candidate_username :: "user_input \<Rightarrow> string" where
  "candidate_username ui = lower (py_str (or_empty (map_of ui CONF_USERNAME)))"

text \<open>\<open>dev_entry.serial_number in apidata\<close>; the keys of \<open>apidata\<close> are strings, so a
  missing serial number is never a key.\<close>

definition serial_in :: "string option \<Rightarrow> apidata \<Rightarrow> bool" where
  "serial_in sn apidata = (case sn of None \<Rightarrow> False | Some s \<Rightarrow> apidata s \<noteq> None)"

text \<open>\<open>apidata.get(dev_entry.serial_number, {}).get("type")\<close>\<close>

definition recorded_type :: "apidata \<Rightarrow> string option \<Rightarrow> string option" where
  "recorded_type apidata sn =
     (case sn of
        None \<Rightarrow> None
      | Some s \<Rightarrow> (case apidata s of None \<Rightarrow> None | Some r \<Rightarrow> r ''type''))"

text \<open>\<open>excluded and not {t} - excluded\<close>: the set difference is empty exactly when \<open>t\<close>
  is in the set, and a missing type (\<open>None\<close>) is no member of a set of tags.\<close>

definition type_excluded :: "string set option \<Rightarrow> string option \<Rightarrow> bool" where
  "type_excluded excluded t =
     (case excluded of
        None \<Rightarrow> False
      | Some ex \<Rightarrow> ex \<noteq> {} \<and> (case t of None \<Rightarrow> False | Some ty \<Rightarrow> ty \<in> ex))"

text \<open>
  The inner loop, over the devices of one entry.  It ends with the entry to return, if the
  \<open>return cfg_entry\<close> was reached, and with \<open>obsolete_user_devs\<close> as it stands then.
\<close>

fun scan_device_entries ::
  "user_input \<Rightarrow> apidata \<Rightarrow> string set option \<Rightarrow> cfg_entry \<Rightarrow> device_entry list \<Rightarrow>
   obsolete \<Rightarrow> cfg_entry option \<times> obsolete" where
  "scan_device_entries ui apidata excluded cfg [] obs = (None, obs)"
| "scan_device_entries ui apidata excluded cfg (dev # rest) obs =
     (let username = lower (py_str (or_empty (map_of ui CONF_USERNAME))) in
      if username \<noteq> [] \<and> Some username \<noteq> unique_id cfg then
        if serial_in (serial_number dev) apidata then (Some cfg, obs)
        else scan_device_entries ui apidata excluded cfg rest obs
      else if \<not> serial_in (serial_number dev) apidata \<or>
              type_excluded excluded (recorded_type apidata (serial_number dev)) then
        scan_device_entries ui apidata excluded cfg rest
          (AList.update (dev_id dev) (serial_number dev) obs)
      else scan_device_entries ui apidata excluded cfg rest obs)"

text \<open>The outer loop, over the entries of the domain.\<close>

fun scan_cfg_entries ::
  "hass \<Rightarrow> user_input \<Rightarrow> apidata \<Rightarrow> string set option \<Rightarrow> cfg_entry list \<Rightarrow>
   obsolete \<Rightarrow> cfg_entry option \<times> obsolete" where
  "scan_cfg_entries h ui apidata excluded [] obs = (None, obs)"
| "scan_cfg_entries h ui apidata excluded (cfg # rest) obs =
     (case scan_device_entries ui apidata excluded cfg
             (async_entries_for_config_entry (device_registry h) (entry_id cfg)) obs of
        (Some found, obs') \<Rightarrow> (Some found, obs')
      | (None, obs') \<Rightarrow> scan_cfg_entries h ui apidata excluded rest obs')"

text \<open>The removal loop: the registry after it, and the ids handed to
  \<open>async_remove_device\<close>, in call order.\<close>

fun remove_obsolete ::
  "obsolete \<Rightarrow> device_entry list \<Rightarrow> string list \<Rightarrow> device_entry list \<times> string list" where
  "remove_obsolete [] registry calls = (registry, calls)"
| "remove_obsolete ((i, serial) # rest) registry calls =
     remove_obsolete rest (async_remove_device registry i) (calls @ [i])"

text \<open>The routine: the entry it returns, the host afterwards, and the removal calls.\<close>

definition async_check_and_remove_devices ::
  "hass \<Rightarrow> user_input \<Rightarrow> apidata \<Rightarrow> string set option \<Rightarrow>
   cfg_entry option \<times> hass \<times> string list" where
  "async_check_and_remove_devices h ui apidata excluded0 =
     (let excluded = expand_excluded excluded0 in
      case scan_cfg_entries h ui apidata excluded (async_entries h DOMAIN) [] of
        (Some found, obs) \<Rightarrow> (Some found, h, [])
      | (None, obs) \<Rightarrow>
          (case remove_obsolete obs (device_registry h) [] of
             (registry, calls) \<Rightarrow> (None, h\<lparr>device_registry := registry\<rparr>, calls)))"

subsection \<open>The scan, described\<close>

text \<open>The pairs the two loops visit: entries in store order, and for each entry its devices
  in registry order.\<close>

definition scan_order :: "hass \<Rightarrow> (cfg_entry \<times> device_entry) list" where
  "scan_order h =
     concat (map (\<lambda>e. map (Pair e)
                         (async_entries_for_config_entry (device_registry h) (entry_id e)))
                 (async_entries h DOMAIN))"

text \<open>An entry of another account: the candidate username is not empty and differs from
  the entry's unique id.\<close>

definition other_account :: "user_input \<Rightarrow> cfg_entry \<Rightarrow> bool" where
  "other_account ui e =
     (candidate_username ui \<noteq> [] \<and> Some (candidate_username ui) \<noteq> unique_id e)"

definition conflict :: "user_input \<Rightarrow> apidata \<Rightarrow> cfg_entry \<times> device_entry \<Rightarrow> bool" where
  "conflict ui apidata p = (other_account ui (fst p) \<and> serial_in (serial_number (snd p)) apidata)"

text \<open>The test on a device that is not of another account: gone from the fetched data, or of
  an excluded type.\<close>

definition stale :: "apidata \<Rightarrow> string set option \<Rightarrow> device_entry \<Rightarrow> bool" where
  "stale apidata excluded d =
     (\<not> serial_in (serial_number d) apidata \<or>
      type_excluded excluded (recorded_type apidata (serial_number d)))"

text \<open>The ids of the devices a complete scan marks, in the order it meets them.\<close>

definition marked ::
  "user_input \<Rightarrow> apidata \<Rightarrow> string set option \<Rightarrow> (cfg_entry \<times> device_entry) list \<Rightarrow>
   string list" where
  "marked ui apidata excluded ps =
     map (\<lambda>p. dev_id (snd p))
       (filter (\<lambda>p. \<not> other_account ui (fst p) \<and> stale apidata excluded (snd p)) ps)"

text \<open>A list without its repetitions, each element at its first place.\<close>

definition first_occurrences :: "'a list \<Rightarrow> 'a list" where
  "first_occurrences xs = rev (remdups (rev xs))"

subsection \<open>Bookkeeping of the scan, for the proofs\<close>

text \<open>One insertion into \<open>obsolete_user_devs\<close>, the test that leads to it, and the pairs
  visited for a given list of entries.\<close>

definition mark :: "obsolete \<Rightarrow> cfg_entry \<times> device_entry \<Rightarrow> obsolete" where
  "mark obs p = AList.update (dev_id (snd p)) (serial_number (snd p)) obs"

definition to_mark ::
  "user_input \<Rightarrow> apidata \<Rightarrow> string set option \<Rightarrow> cfg_entry \<times> device_entry \<Rightarrow> bool" where
  "to_mark ui apidata excluded p =
     (\<not> other_account ui (fst p) \<and> stale apidata excluded (snd p))"

definition pairs :: "hass \<Rightarrow> cfg_entry list \<Rightarrow> (cfg_entry \<times> device_entry) list" where
  "pairs h es =
     concat (map (\<lambda>e. map (Pair e)
                         (async_entries_for_config_entry (device_registry h) (entry_id e))) es)"

section \<open>The cloud client and its failures\<close>

text \<open>
  Modelled from the spec: the module \<open>api_client\<close> is not among the sources.  Section 6 gives
  the contract: authentication yields a session or fails with an authentication, a
  communication or a retry-exceeded error, or with something else; the session exposes
  \<open>sites\<close> and \<open>devices\<close> as mappings and a \<open>nickname\<close>; \<open>update_sites\<close> refreshes
  the site data.  The three distinguished failures are different classes, none a
  subclass of another.

  Every constructor below is a Python \<open>Exception\<close>.  \<open>AbortFlow\<close> is the host
  platform's abort signal (an exception derived from \<open>Exception\<close>, carrying the reason);
  the host turns it into the abort outcome of a flow when it leaves a step.
  \<open>AttributeError\<close> is what an attribute access on a value that lacks the attribute
  raises; it carries the type of the value and the attribute.  \<open>OtherException\<close>
  carries a class name and a message.
\<close>

datatype exn =
    AnkerSolixApiClientAuthenticationError string
  | AnkerSolixApiClientCommunicationError string
  | AnkerSolixApiClientRetryExceededError string
  | AnkerSolixApiClientError string
  | AbortFlow string
  | AttributeError string string
  | OtherException string string

text \<open>\<open>str(exception)\<close> and \<open>str(type(exception))\<close>.\<close>

fun exn_str :: "exn \<Rightarrow> string" where
  "exn_str (AnkerSolixApiClientAuthenticationError m) = m"
| "exn_str (AnkerSolixApiClientCommunicationError m) = m"
| "exn_str (AnkerSolixApiClientRetryExceededError m) = m"
| "exn_str (AnkerSolixApiClientError m) = m"
| "exn_str (AbortFlow reason) = ''Flow aborted: '' @ reason"
| "exn_str (AttributeError t a) =
     [CHR 0x27] @ t @ [CHR 0x27] @ '' object has no attribute '' @ [CHR 0x27] @ a @ [CHR 0x27]"
| "exn_str (OtherException c m) = m"

fun class_name :: "exn \<Rightarrow> string" where
  "class_name (AnkerSolixApiClientAuthenticationError m) =
     ''custom_components.anker_solix.api_client.AnkerSolixApiClientAuthenticationError''"
| "class_name (AnkerSolixApiClientCommunicationError m) =
     ''custom_components.anker_solix.api_client.AnkerSolixApiClientCommunicationError''"
| "class_name (AnkerSolixApiClientRetryExceededError m) =
     ''custom_components.anker_solix.api_client.AnkerSolixApiClientRetryExceededError''"
| "class_name (AnkerSolixApiClientError m) =
     ''custom_components.anker_solix.api_client.AnkerSolixApiClientError''"
| "class_name (AbortFlow reason) = ''homeassistant.data_entry_flow.AbortFlow''"
| "class_name (AttributeError t a) = ''AttributeError''"
| "class_name (OtherException c m) = c"

definition type_str :: "exn \<Rightarrow> string" where
  "type_str e = ''<class '' @ [CHR 0x27] @ class_name e @ [CHR 0x27] @ ''>''"

record api_client =
  nickname :: string
  sites :: apidata
  devices :: apidata

text \<open>The cloud service, as the flow sees it: what authenticating with a form's input
  gives, and what refreshing the sites of a session gives.\<close>

record cloud =
  authenticate :: "user_input \<Rightarrow> exn + api_client"
  update_sites :: "api_client \<Rightarrow> exn + api_client"

section \<open>The setup wizard\<close>

text \<open>The handler's attributes.  \<open>flow_unique_id\<close> is the unique id the host keeps for the
  flow.\<close>

record flow =
  data :: user_input
  flow_options :: options
  client :: "api_client option"
  examplesfolder :: string
  flow_unique_id :: "string option"

text \<open>
  What a step hands back to the host: a form (step id, errors, description placeholders;
  the schema of the form is left out), a new entry (title, data, options), the options of
  an existing entry (title, data), or the abort of the flow.
\<close>

datatype flow_result =
    Show_form string messages messages
  | Create_entry "field option" user_input options
  | Create_options string options
  | Abort string

text \<open>The calls a step makes to the cloud and to the device registry, in order.\<close>

datatype event = Authenticate user_input | Update_sites | Remove_device string

text \<open>
  Modelled from the spec: \<open>async_set_unique_id\<close> and \<open>_abort_if_unique_id_configured\<close>
  are methods of the host's flow base class, which is not among the sources.  Section 4.3,
  step 3: the unique id is checked against the existing entries, and a username that is
  already configured aborts the flow.  The first method records the id on the flow and
  returns the entry of the domain that has it, if any; the second raises the host's
  \<open>AbortFlow\<close> when an entry of the domain has the flow's unique id, and returns
  otherwise.
\<close>

definition async_set_unique_id :: "hass \<Rightarrow> string \<Rightarrow> cfg_entry option" where
  "async_set_unique_id h uid = find (\<lambda>e. unique_id e = Some uid) (async_entries h DOMAIN)"

definition abort_if_unique_id_configured :: "hass \<Rightarrow> flow \<Rightarrow> exn + unit" where
  "abort_if_unique_id_configured h f =
     (case flow_unique_id f of
        None \<Rightarrow> Inr ()
      | Some uid \<Rightarrow>
          (case async_set_unique_id h uid of
             None \<Rightarrow> Inr ()
           | Some e \<Rightarrow> Inl (AbortFlow ''already_configured'')))"

text \<open>\<open>_authenticate_client\<close>: build the client from the input and authenticate it.\<close>

definition authenticate_client :: "cloud \<Rightarrow> user_input \<Rightarrow> exn + api_client" where
  "authenticate_client cl ui = authenticate cl ui"

text \<open>The options step of the wizard.\<close>

definition async_step_user_options :: "flow \<Rightarrow> options option \<Rightarrow> flow_result \<times> flow" where
  "async_step_user_options f user_options =
     (case user_options of
        None \<Rightarrow> (Show_form ''user_options'' [] [], f)
      | Some opts \<Rightarrow>
          if opts = [] then (Show_form ''user_options'' [] [], f)
          else
            let f' = f\<lparr>flow_options := opts\<rparr> in
            if opt_truthy (map_of opts TESTFOLDER) \<or> \<not> opt_truthy (map_of opts TESTMODE) then
              (Create_entry
                 (case client f' of
                    Some c \<Rightarrow> Some (Text (nickname c))
                  | None \<Rightarrow> map_of (data f') CONF_USERNAME)
                 (data f') opts,
               f')
            else (Show_form ''user_options'' [(TESTFOLDER, ''folder_invalid'')] [], f'))"

text \<open>How the \<open>try\<close> block of \<open>async_step_user\<close> ends: by an exception, at the
  duplicate-devices branch, or at the \<open>return\<close> that enters the options step.\<close>

datatype try_end = Raised exn | Duplicate cfg_entry | Proceed

text \<open>The block from \<open>update_sites\<close> on.  An unset \<open>self.client\<close> is \<open>None\<close>, whose
  attribute \<open>api\<close> does not exist.\<close>

definition fetch_and_check ::
  "cloud \<Rightarrow> flow \<Rightarrow> hass \<Rightarrow> user_input \<Rightarrow> event list \<Rightarrow> try_end \<times> flow \<times> hass \<times> event list" where
  "fetch_and_check cl f h ui evs =
     (case client f of
        None \<Rightarrow>
          (Raised (AttributeError ''NoneType'' ''api''), f, h, evs)
      | Some c \<Rightarrow>
          (case update_sites cl c of
             Inl e \<Rightarrow> (Raised e, f, h, evs @ [Update_sites])
           | Inr c' \<Rightarrow>
               let f' = f\<lparr>client := Some c'\<rparr> in
               (case async_check_and_remove_devices h ui (sites c' ++ devices c') None of
                  (Some cfg, h', removed) \<Rightarrow>
                    (Duplicate cfg, f', h', evs @ [Update_sites] @ map Remove_device removed)
                | (None, h', removed) \<Rightarrow>
                    (Proceed,
                     f'\<lparr>data := AList.update EXAMPLESFOLDER (Text (examplesfolder f')) ui\<rparr>,
                     h', evs @ [Update_sites] @ map Remove_device removed))))"

text \<open>The \<open>try\<close> block.  \<open>account_user.lower()\<close> exists for a text (and for the default
  \<open>""\<close> of a missing key) only.\<close>

definition try_block ::
  "cloud \<Rightarrow> flow \<Rightarrow> hass \<Rightarrow> user_input \<Rightarrow> try_end \<times> flow \<times> hass \<times> event list" where
  "try_block cl f h ui =
     (case (case map_of ui CONF_USERNAME of None \<Rightarrow> Text [] | Some v \<Rightarrow> v) of
        Flag b \<Rightarrow>
          (Raised (AttributeError ''bool'' ''lower''), f, h, [])
      | Text account_user \<Rightarrow>
          let f1 = f\<lparr>flow_unique_id := Some (lower account_user)\<rparr> in
          (case async_set_unique_id h (lower account_user) of
             Some existing \<Rightarrow>
               (case abort_if_unique_id_configured h f1 of
                  Inl e \<Rightarrow> (Raised e, f1, h, [])
                | Inr u \<Rightarrow> fetch_and_check cl f1 h ui [])
           | None \<Rightarrow>
               (case authenticate_client cl ui of
                  Inl e \<Rightarrow> (Raised e, f1, h, [Authenticate ui])
                | Inr c \<Rightarrow> fetch_and_check cl (f1\<lparr>client := Some c\<rparr>) h ui [Authenticate ui])))"

text \<open>The \<open>except\<close> clauses, in their order: the entry of \<open>errors\<close> under \<open>base\<close> and
  the text stored under \<open>ERROR_DETAIL\<close>.\<close>

fun handle_exn :: "exn \<Rightarrow> string \<times> string" where
  "handle_exn (AnkerSolixApiClientAuthenticationError m) =
     (''auth'', exn_str (AnkerSolixApiClientAuthenticationError m))"
| "handle_exn (AnkerSolixApiClientCommunicationError m) =
     (''connection'', exn_str (AnkerSolixApiClientCommunicationError m))"
| "handle_exn (AnkerSolixApiClientRetryExceededError m) =
     (''exceeded'', exn_str (AnkerSolixApiClientRetryExceededError m))"
| "handle_exn e = (''unknown'', ''Exception '' @ type_str e @ '': '' @ exn_str e)"

text \<open>The credential step: its result, the handler and the host afterwards, and the calls
  made.\<close>

definition async_step_user ::
  "cloud \<Rightarrow> flow \<Rightarrow> hass \<Rightarrow> user_input option \<Rightarrow> flow_result \<times> flow \<times> hass \<times> event list" where
  "async_step_user cl f h user_input =
     (let placeholders = [(TERMS_LINK, TC_LINK)] in
      case user_input of
        None \<Rightarrow> (Show_form ''user'' [] placeholders, f, h, [])
      | Some ui \<Rightarrow>
          if ui = [] then (Show_form ''user'' [] placeholders, f, h, [])
          else if \<not> truthy (Some (case map_of ui ACCEPT_TERMS of None \<Rightarrow> Text [] | Some v \<Rightarrow> v))
          then (Show_form ''user'' [(ACCEPT_TERMS, ACCEPT_TERMS)] placeholders, f, h, [])
          else
            (case try_block cl f h ui of
               (Proceed, f', h', evs) \<Rightarrow>
                 (case async_step_user_options f' None of (r, f'') \<Rightarrow> (r, f'', h', evs))
             | (Duplicate cfg, f', h', evs) \<Rightarrow>
                 (Show_form ''user'' [(CONF_USERNAME, ''duplicate_devices'')]
                    (AList.update SHARED_ACCOUNT (title cfg)
                       (AList.update CONF_USERNAME
                          (py_str (case map_of ui CONF_USERNAME of None \<Rightarrow> Text [] | Some v \<Rightarrow> v))
                          placeholders)),
                  f', h', evs)
             | (Raised e, f', h', evs) \<Rightarrow>
                 (Show_form ''user'' [(''base'', fst (handle_exn e))]
                    (AList.update ERROR_DETAIL (snd (handle_exn e)) placeholders),
                  f', h', evs)))"

section \<open>The options editor\<close>

text \<open>\<open>AnkerSolixOptionsFlowHandler.async_step_init\<close>; the entry being edited only seeds
  the schema of the form.\<close>

definition async_step_init :: "options option \<Rightarrow> flow_result" where
  "async_step_init user_input =
     (case user_input of
        None \<Rightarrow> Show_form ''init'' [] []
      | Some opts \<Rightarrow>
          if opts = [] then Show_form ''init'' [] []
          else if opt_truthy (map_of opts TESTFOLDER) \<or> \<not> opt_truthy (map_of opts TESTMODE)
          then Create_options [] opts
          else Show_form ''init'' [(TESTFOLDER, ''folder_invalid'')] [])"

section \<open>Example inputs\<close>

text \<open>Two accounts: Alice owns the devices A, B and C, Bob owns X and Y.  The data fetched
  for the candidate account knows A, C and X.\<close>

definition entry_alice :: cfg_entry where
  "entry_alice =
     \<lparr>entry_id = ''e1'', domain = DOMAIN, unique_id = Some ''a@x.com'', title = ''Alice''\<rparr>"

definition entry_bob :: cfg_entry where
  "entry_bob =
     \<lparr>entry_id = ''e2'', domain = DOMAIN, unique_id = Some ''b@y.com'', title = ''Bob''\<rparr>"

definition dev_A :: device_entry where
  "dev_A = \<lparr>dev_id = ''idA'', serial_number = Some ''A'', dev_config_entries = {''e1''}\<rparr>"

definition dev_B :: device_entry where
  "dev_B = \<lparr>dev_id = ''idB'', serial_number = Some ''B'', dev_config_entries = {''e1''}\<rparr>"

definition dev_C :: device_entry where
  "dev_C = \<lparr>dev_id = ''idC'', serial_number = Some ''C'', dev_config_entries = {''e1''}\<rparr>"

definition dev_X :: device_entry where
  "dev_X = \<lparr>dev_id = ''idX'', serial_number = Some ''X'', dev_config_entries = {''e2''}\<rparr>"

definition dev_Y :: device_entry where
  "dev_Y = \<lparr>dev_id = ''idY'', serial_number = Some ''Y'', dev_config_entries = {''e2''}\<rparr>"

definition fetched :: apidata where
  "fetched =
     [''A'' \<mapsto> [''type'' \<mapsto> ''solarbank''],
      ''C'' \<mapsto> [''type'' \<mapsto> ''inverter''],
      ''X'' \<mapsto> [''type'' \<mapsto> ''pps'']]"

text \<open>Alice's devices only; Alice's devices and Bob's device Y, which the fetched data does
  not know; and both accounts with Bob's device X, which it knows.\<close>

definition hass_alice :: hass where
  "hass_alice = \<lparr>config_entries = [entry_alice], device_registry = [dev_A, dev_B, dev_C]\<rparr>"

definition hass_apart :: hass where
  "hass_apart =
     \<lparr>config_entries = [entry_alice, entry_bob],
      device_registry = [dev_A, dev_B, dev_C, dev_Y]\<rparr>"

definition hass_shared :: hass where
  "hass_shared =
     \<lparr>config_entries = [entry_alice, entry_bob],
      device_registry = [dev_A, dev_B, dev_C, dev_X]\<rparr>"

definition input_alice :: user_input where
  "input_alice =
     [(CONF_USERNAME, Text ''A@x.com''), (CONF_PASSWORD, Text ''secret''),
      (CONF_COUNTRY_CODE, Text ''DE''), (ACCEPT_TERMS, Flag True)]"

definition input_carol :: user_input where
  "input_carol =
     [(CONF_USERNAME, Text ''c@z.com''), (CONF_PASSWORD, Text ''secret''),
      (CONF_COUNTRY_CODE, Text ''DE''), (ACCEPT_TERMS, Flag True)]"

definition input_nameless :: user_input where
  "input_nameless = [(CONF_PASSWORD, Text ''secret'')]"

definition fresh_flow :: flow where
  "fresh_flow =
     \<lparr>data = [], flow_options = [], client = None, examplesfolder = ''/config/examples'',
      flow_unique_id = None\<rparr>"

definition session_carol :: api_client where
  "session_carol = \<lparr>nickname = ''Carol'', sites = Map.empty, devices = Map.empty\<rparr>"

text \<open>A cloud that accepts every login and refreshes without change, and one that is never
  reached.\<close>

definition cloud_ok :: cloud where
  "cloud_ok = \<lparr>authenticate = (\<lambda>ui. Inr session_carol), update_sites = (\<lambda>c. Inr c)\<rparr>"

definition cloud_down :: cloud where
  "cloud_down =
     \<lparr>authenticate = (\<lambda>ui. Inl (AnkerSolixApiClientCommunicationError ''timeout'')),
      update_sites = (\<lambda>c. Inr c)\<rparr>"

text \<open>A cloud whose account has no display name.\<close>

definition session_nameless :: api_client where
  "session_nameless = \<lparr>nickname = [], sites = Map.empty, devices = Map.empty\<rparr>"

definition cloud_nameless :: cloud where
  "cloud_nameless =
     \<lparr>authenticate = (\<lambda>ui. Inr session_nameless), update_sites = (\<lambda>c. Inr c)\<rparr>"

definition options_plain :: options where
  "options_plain = [(''scan_interval'', ONum 60), (''exclude'', OList [])]"

definition options_no_folder :: options where
  "options_no_folder =
     [(''scan_interval'', ONum 60), (TESTMODE, OBool True), (TESTFOLDER, OStr [])]"

section \<open>Properties of the expansion\<close>

lemma tags_distinct:
  "distinct [site_price, device_auto_upgrade, solarbank_energy, solarbank_cutoff,
             solarbank_fittings, solarbank_solar_info, SYSTEM, SOLARBANK, INVERTER, PPS,
             POWERPANEL]"
  by (simp add: site_price_def device_auto_upgrade_def solarbank_energy_def
      solarbank_cutoff_def solarbank_fittings_def solarbank_solar_info_def SYSTEM_def
      SOLARBANK_def INVERTER_def PPS_def POWERPANEL_def)

lemma expand_excluded_Some: "expand_excluded (Some S) = Some (expanded S)"
  using tags_distinct
  by (auto simp: expand_excluded_def Let_def expanded_def system_tags_def solarbank_tags_def
      managed_types_def)

lemma expanded_again:
  "expanded (expanded S) =
     (if system_tags \<inter> expanded S \<noteq> {} then insert SYSTEM (expanded S) else expanded S)"
  using tags_distinct
  by (auto simp: expanded_def system_tags_def solarbank_tags_def managed_types_def
      split: if_splits)

lemma expanded_thrice: "expanded (expanded (expanded S)) = expanded (expanded S)"
  using tags_distinct
  by (auto simp: expanded_def system_tags_def solarbank_tags_def managed_types_def
      split: if_splits)

text \<open>
  C3.  An exclusion set that holds one of the solarbank subcategory tags (energy, cutoff,
  fittings, solar info) is expanded to a set that holds the solarbank device type; one that
  holds the auto-upgrade tag is expanded to a set that holds the solarbank, inverter, PPS and
  powerpanel device types.
\<close>

theorem expansion_adds_device_types:
  "(S \<inter> {solarbank_energy, solarbank_cutoff, solarbank_fittings, solarbank_solar_info} \<noteq> {}
      \<longrightarrow> (\<exists>E. expand_excluded (Some S) = Some E \<and> SOLARBANK \<in> E)) \<and>
   (device_auto_upgrade \<in> S
      \<longrightarrow> (\<exists>E. expand_excluded (Some S) = Some E \<and>
               {SOLARBANK, INVERTER, PPS, POWERPANEL} \<subseteq> E))"
  by (auto simp: expand_excluded_def Let_def)

theorem expansion_adds_device_types_witness:
  "{solarbank_cutoff, device_auto_upgrade} \<inter>
     {solarbank_energy, solarbank_cutoff, solarbank_fittings, solarbank_solar_info} \<noteq> {} \<and>
   device_auto_upgrade \<in> {solarbank_cutoff, device_auto_upgrade} \<and>
   (\<exists>E. expand_excluded (Some {solarbank_cutoff, device_auto_upgrade}) = Some E \<and>
        SOLARBANK \<in> E) \<and>
   (\<exists>E. expand_excluded (Some {solarbank_cutoff, device_auto_upgrade}) = Some E \<and>
        {SOLARBANK, INVERTER, PPS, POWERPANEL} \<subseteq> E)"
  using expansion_adds_device_types [of "{solarbank_cutoff, device_auto_upgrade}"] by simp

text \<open>
  C5, as stated: expanding an expanded set adds nothing.  It fails for the set that holds
  the solarbank energy tag alone: its expansion gains the solarbank device type, but not the
  system device type, which only a second expansion adds.
\<close>

theorem expansion_not_idempotent:
  "expand_excluded (Some {solarbank_energy}) = Some {solarbank_energy, SOLARBANK} \<and>
   SYSTEM \<notin> {solarbank_energy, SOLARBANK} \<and>
   expand_excluded (expand_excluded (Some {solarbank_energy})) =
     Some {solarbank_energy, SOLARBANK, SYSTEM} \<and>
   expand_excluded (expand_excluded (Some {solarbank_energy})) \<noteq>
     expand_excluded (Some {solarbank_energy})"
proof -
  have e1: "expanded {solarbank_energy} = {solarbank_energy, SOLARBANK}"
    using tags_distinct
    by (auto simp: expanded_def system_tags_def solarbank_tags_def managed_types_def)
  have e2: "expanded {solarbank_energy, SOLARBANK} = {solarbank_energy, SOLARBANK, SYSTEM}"
    using tags_distinct
    by (auto simp: expanded_def system_tags_def solarbank_tags_def managed_types_def)
  have n: "SYSTEM \<notin> {solarbank_energy, SOLARBANK}"
    using tags_distinct by auto
  have d: "{solarbank_energy, SOLARBANK, SYSTEM} \<noteq> {solarbank_energy, SOLARBANK}"
    using n by blast
  show ?thesis
    using n d by (simp add: expand_excluded_Some e1 e2)
qed

text \<open>
  C5, amended.  The expansion keeps the given tags.  It holds the system device type
  exactly when the given set holds it or holds a tag that implies it (price, solarbank,
  inverter, PPS, powerpanel): a device type that the solarbank-subcategory rule or the
  auto-upgrade rule adds does not bring the system device type in within the same pass.
  Expanding an expanded set adds the system device type if the expanded set holds such a
  tag, and nothing else; a third expansion adds nothing.
\<close>

theorem expansion_closed_after_second_pass:
  "(\<exists>E. expand_excluded (Some S) = Some E \<and> S \<subseteq> E \<and>
        (SYSTEM \<in> E \<longleftrightarrow>
           SYSTEM \<in> S \<or> S \<inter> {site_price, SOLARBANK, INVERTER, PPS, POWERPANEL} \<noteq> {}) \<and>
        expand_excluded (Some E) =
          Some (if {site_price, SOLARBANK, INVERTER, PPS, POWERPANEL} \<inter> E \<noteq> {}
                then insert SYSTEM E else E)) \<and>
   expand_excluded (expand_excluded (expand_excluded (Some S))) =
     expand_excluded (expand_excluded (Some S))"
proof -
  have sub: "S \<subseteq> expanded S"
    by (auto simp: expanded_def)
  have sys: "SYSTEM \<in> expanded S \<longleftrightarrow>
      SYSTEM \<in> S \<or> S \<inter> {site_price, SOLARBANK, INVERTER, PPS, POWERPANEL} \<noteq> {}"
    using tags_distinct
    by (auto simp: expanded_def system_tags_def solarbank_tags_def managed_types_def)
  have again: "expand_excluded (Some (expanded S)) =
      Some (if {site_price, SOLARBANK, INVERTER, PPS, POWERPANEL} \<inter> expanded S \<noteq> {}
            then insert SYSTEM (expanded S) else expanded S)"
    using expanded_again [of S] by (simp add: expand_excluded_Some system_tags_def)
  have thrice: "expand_excluded (expand_excluded (expand_excluded (Some S))) =
      expand_excluded (expand_excluded (Some S))"
    by (simp add: expand_excluded_Some expanded_thrice)
  from sub sys again thrice show ?thesis
    by (simp only: expand_excluded_Some) blast
qed

theorem expansion_closed_after_second_pass_witness:
  "SYSTEM \<notin> {device_auto_upgrade, solarbank_cutoff} \<and>
   {device_auto_upgrade, solarbank_cutoff} \<inter>
     {site_price, SOLARBANK, INVERTER, PPS, POWERPANEL} = {} \<and>
   (\<exists>E. expand_excluded (Some {device_auto_upgrade, solarbank_cutoff}) = Some E \<and>
        {device_auto_upgrade, solarbank_cutoff} \<subseteq> E \<and> SYSTEM \<notin> E \<and>
        expand_excluded (Some E) =
          Some (if {site_price, SOLARBANK, INVERTER, PPS, POWERPANEL} \<inter> E \<noteq> {}
                then insert SYSTEM E else E))"
proof -
  have n: "SYSTEM \<notin> {device_auto_upgrade, solarbank_cutoff}"
    using tags_distinct by auto
  have d: "{device_auto_upgrade, solarbank_cutoff} \<inter>
      {site_price, SOLARBANK, INVERTER, PPS, POWERPANEL} = {}"
    using tags_distinct by auto
  show ?thesis
    using expansion_closed_after_second_pass [of "{device_auto_upgrade, solarbank_cutoff}"] n d
    by auto
qed

section \<open>Properties of the reconciliation\<close>

lemma keys_update:
  "map fst (AList.update k v al) =
     (if k \<in> fst ` set al then map fst al else map fst al @ [k])"
  by (induction al) auto

lemma first_occurrences_snoc:
  "first_occurrences (xs @ [x]) =
     (if x \<in> set xs then first_occurrences xs else first_occurrences xs @ [x])"
  by (simp add: first_occurrences_def)

lemma set_first_occurrences: "set (first_occurrences xs) = set xs"
  by (simp add: first_occurrences_def)

lemma keys_mark:
  "map fst (mark obs p) =
     (if dev_id (snd p) \<in> fst ` set obs then map fst obs else map fst obs @ [dev_id (snd p)])"
  by (simp add: mark_def keys_update)

lemma keys_foldl_mark:
  "map fst (foldl mark [] ps) = first_occurrences (map (\<lambda>p. dev_id (snd p)) ps)"
proof (induction ps rule: rev_induct)
  case Nil
  show ?case by (simp add: first_occurrences_def)
next
  case (snoc p ps)
  have "set (map fst (foldl mark [] ps)) = set (map (\<lambda>p. dev_id (snd p)) ps)"
    by (simp only: snoc.IH set_first_occurrences)
  then have mem: "dev_id (snd p) \<in> fst ` set (foldl mark [] ps) \<longleftrightarrow>
      dev_id (snd p) \<in> (\<lambda>p. dev_id (snd p)) ` set ps"
    by simp
  show ?case
    using snoc.IH mem by (simp add: keys_mark first_occurrences_snoc)
qed

lemma scan_device_entries_char:
  "scan_device_entries ui api ex e ds obs =
     (case find (\<lambda>d. conflict ui api (e, d)) ds of
        Some d \<Rightarrow>
          (Some e,
           foldl mark obs
             (filter (to_mark ui api ex)
                (map (Pair e) (takeWhile (\<lambda>d. \<not> conflict ui api (e, d)) ds))))
      | None \<Rightarrow> (None, foldl mark obs (filter (to_mark ui api ex) (map (Pair e) ds))))"
  by (induction ds arbitrary: obs)
     (auto simp: conflict_def other_account_def candidate_username_def stale_def mark_def
        to_mark_def Let_def split: option.splits)

lemma find_map_Pair:
  "find P (map (Pair e) ds) = map_option (Pair e) (find (\<lambda>d. P (e, d)) ds)"
  by (induction ds) auto

lemma find_append':
  "find P (xs @ ys) = (case find P xs of Some x \<Rightarrow> Some x | None \<Rightarrow> find P ys)"
  by (induction xs) auto

lemma scan_cfg_entries_char:
  "(case find (conflict ui api) (pairs h es) of
      Some p \<Rightarrow> fst (scan_cfg_entries h ui api ex es obs) = Some (fst p)
    | None \<Rightarrow>
        scan_cfg_entries h ui api ex es obs =
          (None, foldl mark obs (filter (to_mark ui api ex) (pairs h es))))"
proof (induction es arbitrary: obs)
  case Nil
  show ?case by (simp add: pairs_def)
next
  case (Cons e es)
  let ?ds = "async_entries_for_config_entry (device_registry h) (entry_id e)"
  have p: "pairs h (e # es) = map (Pair e) ?ds @ pairs h es"
    by (simp add: pairs_def)
  show ?case
  proof (cases "find (\<lambda>d. conflict ui api (e, d)) ?ds")
    case (Some d)
    then show ?thesis
      by (simp add: p find_append' find_map_Pair scan_device_entries_char)
  next
    case None
    then show ?thesis
      using Cons.IH [of "foldl mark obs (filter (to_mark ui api ex) (map (Pair e) ?ds))"]
      by (auto simp add: p find_append' find_map_Pair scan_device_entries_char
          split: option.splits)
  qed
qed

lemma remove_obsolete_char:
  "remove_obsolete obs reg calls =
     (filter (\<lambda>d. dev_id d \<notin> fst ` set obs) reg, calls @ map fst obs)"
  by (induction obs reg calls rule: remove_obsolete.induct)
     (auto simp: async_remove_device_def intro: filter_cong)

lemma reconcile_char:
  "async_check_and_remove_devices h ui api ex0 =
     (case find (conflict ui api) (scan_order h) of
        Some p \<Rightarrow> (Some (fst p), h, [])
      | None \<Rightarrow>
          (None,
           h\<lparr>device_registry :=
               filter (\<lambda>d. dev_id d \<notin> set (marked ui api (expand_excluded ex0) (scan_order h)))
                 (device_registry h)\<rparr>,
           first_occurrences (marked ui api (expand_excluded ex0) (scan_order h))))"
proof -
  have so: "scan_order h = pairs h (async_entries h DOMAIN)"
    by (simp add: scan_order_def pairs_def)
  have mk: "marked ui api ex ps = map (\<lambda>p. dev_id (snd p)) (filter (to_mark ui api ex) ps)"
    for ex ps
    by (simp add: marked_def to_mark_def [abs_def])
  show ?thesis
  proof (cases "find (conflict ui api) (scan_order h)")
    case None
    have "fst ` set (foldl mark [] ps) = set (map fst (foldl mark [] ps))" for ps
      by simp
    then have ks: "fst ` set (foldl mark [] ps) = (\<lambda>p. dev_id (snd p)) ` set ps" for ps
      by (simp only: keys_foldl_mark set_first_occurrences set_map)
    from None show ?thesis
      using scan_cfg_entries_char [where ui = ui and api = api and h = h
          and es = "async_entries h DOMAIN" and ex = "expand_excluded ex0" and obs = "[]"]
      by (simp add: async_check_and_remove_devices_def so [symmetric] remove_obsolete_char
          keys_foldl_mark mk ks)
  next
    case (Some p)
    then show ?thesis
      using scan_cfg_entries_char [where ui = ui and api = api and h = h
          and es = "async_entries h DOMAIN" and ex = "expand_excluded ex0" and obs = "[]"]
      by (auto simp add: async_check_and_remove_devices_def so [symmetric]
          split: prod.splits option.splits)
  qed
qed

lemma find_None_iff': "find P xs = None \<longleftrightarrow> \<not> (\<exists>x \<in> set xs. P x)"
  by (induction xs) auto

lemma lower_empty: "lower s = [] \<longleftrightarrow> s = []"
  by (simp add: lower_def)

lemma candidate_username_empty:
  "candidate_username ui = [] \<longleftrightarrow> \<not> truthy (map_of ui CONF_USERNAME)"
proof (cases "map_of ui CONF_USERNAME")
  case None
  then show ?thesis by (simp add: candidate_username_def lower_empty)
next
  case (Some v)
  then show ?thesis
    by (cases v rule: py_str.cases) (simp_all add: candidate_username_def lower_empty)
qed

text \<open>Evaluation of the examples.\<close>

lemma lower_examples:
  "lower ''A@x.com'' = ''a@x.com''" "lower ''c@z.com'' = ''c@z.com''" "lower [] = []"
  by (simp_all add: lower_def lower_char_def)

lemma username_examples:
  "candidate_username input_alice = ''a@x.com''"
  "candidate_username input_nameless = []"
  by (simp_all add: candidate_username_def input_alice_def input_nameless_def lower_examples
      CONF_USERNAME_def CONF_PASSWORD_def)

lemma scan_order_examples:
  "scan_order hass_alice = [(entry_alice, dev_A), (entry_alice, dev_B), (entry_alice, dev_C)]"
  "scan_order hass_apart =
     [(entry_alice, dev_A), (entry_alice, dev_B), (entry_alice, dev_C), (entry_bob, dev_Y)]"
  "scan_order hass_shared =
     [(entry_alice, dev_A), (entry_alice, dev_B), (entry_alice, dev_C), (entry_bob, dev_X)]"
  by (simp_all add: scan_order_def hass_alice_def hass_apart_def hass_shared_def
      async_entries_def async_entries_for_config_entry_def entry_alice_def entry_bob_def
      dev_A_def dev_B_def dev_C_def dev_X_def dev_Y_def)

lemma other_account_examples:
  "\<not> other_account input_alice entry_alice" "other_account input_alice entry_bob"
  "\<not> other_account input_nameless entry_alice" "\<not> other_account input_nameless entry_bob"
  by (simp_all add: other_account_def username_examples entry_alice_def entry_bob_def)

lemma serial_in_examples:
  "serial_in (serial_number dev_A) fetched" "\<not> serial_in (serial_number dev_B) fetched"
  "serial_in (serial_number dev_C) fetched" "serial_in (serial_number dev_X) fetched"
  "\<not> serial_in (serial_number dev_Y) fetched"
  by (simp_all add: serial_in_def fetched_def dev_A_def dev_B_def dev_C_def dev_X_def
      dev_Y_def)

lemma recorded_type_examples:
  "recorded_type fetched (serial_number dev_A) = Some ''solarbank''"
  "recorded_type fetched (serial_number dev_C) = Some ''inverter''"
  "recorded_type fetched (serial_number dev_X) = Some ''pps''"
  by (simp_all add: recorded_type_def fetched_def dev_A_def dev_C_def dev_X_def)

lemma expand_inverter: "expand_excluded (Some {INVERTER}) = Some {INVERTER, SYSTEM}"
  using tags_distinct
  by (auto simp: expand_excluded_Some expanded_def system_tags_def solarbank_tags_def
      managed_types_def)

lemma stale_examples:
  "\<not> stale fetched (Some {INVERTER, SYSTEM}) dev_A"
  "stale fetched (Some {INVERTER, SYSTEM}) dev_B"
  "stale fetched (Some {INVERTER, SYSTEM}) dev_C"
  "\<not> stale fetched (Some {INVERTER, SYSTEM}) dev_X"
  "stale fetched (Some {INVERTER, SYSTEM}) dev_Y"
  by (simp_all add: stale_def serial_in_examples recorded_type_examples type_excluded_def
      INVERTER_def SYSTEM_def)

lemma dev_id_examples:
  "dev_id dev_A = ''idA''" "dev_id dev_B = ''idB''" "dev_id dev_C = ''idC''"
  "dev_id dev_X = ''idX''" "dev_id dev_Y = ''idY''"
  by (simp_all add: dev_A_def dev_B_def dev_C_def dev_X_def dev_Y_def)

lemma set_marked:
  "set (marked ui api ex ps) =
     {dev_id d | e d. (e, d) \<in> set ps \<and> \<not> other_account ui e \<and>
        (\<not> serial_in (serial_number d) api \<or>
         type_excluded ex (recorded_type api (serial_number d)))}"
  by (force simp: marked_def stale_def)

lemma marked_examples:
  "marked input_alice fetched (Some {INVERTER, SYSTEM}) (scan_order hass_apart) =
     [''idB'', ''idC'']"
  "marked input_nameless fetched (Some {INVERTER, SYSTEM}) (scan_order hass_apart) =
     [''idB'', ''idC'', ''idY'']"
  by (simp_all add: marked_def scan_order_examples other_account_examples stale_examples
      dev_id_examples)

lemma registry_examples:
  "filter (\<lambda>d. dev_id d \<notin> set [''idB'', ''idC'']) (device_registry hass_apart) =
     [dev_A, dev_Y]"
  "filter (\<lambda>d. dev_id d \<notin> set [''idB'', ''idC'', ''idY'']) (device_registry hass_apart) =
     [dev_A]"
  by (simp_all add: hass_apart_def dev_id_examples)

text \<open>
  C1.  With a candidate username that is not empty, the routine returns an entry exactly
  when some entry whose unique id differs from the lower-cased candidate username has a
  registered device whose serial number is a key of the fetched data.  The entry returned
  is that of the first such pair in scan order (entries in store order, devices in registry
  order), and the routine stops there: the host is left as it was and no device is removed.
\<close>

theorem conflict_iff_first_match:
  assumes "candidate_username ui \<noteq> []"
  shows "(fst (async_check_and_remove_devices h ui api ex) \<noteq> None \<longleftrightarrow>
            (\<exists>(e, d) \<in> set (scan_order h).
                Some (candidate_username ui) \<noteq> unique_id e \<and> serial_in (serial_number d) api)) \<and>
         fst (async_check_and_remove_devices h ui api ex) =
           map_option fst
             (find (\<lambda>(e, d). Some (candidate_username ui) \<noteq> unique_id e \<and>
                              serial_in (serial_number d) api)
                (scan_order h)) \<and>
         (fst (async_check_and_remove_devices h ui api ex) \<noteq> None \<longrightarrow>
            snd (async_check_and_remove_devices h ui api ex) = (h, []))"
proof -
  have c: "conflict ui api =
      (\<lambda>(e, d). Some (candidate_username ui) \<noteq> unique_id e \<and> serial_in (serial_number d) api)"
    using assms by (auto simp: conflict_def other_account_def fun_eq_iff)
  show ?thesis
  proof (cases "find (conflict ui api) (scan_order h)")
    case None
    then have "\<not> (\<exists>p \<in> set (scan_order h). conflict ui api p)"
      by (simp add: find_None_iff')
    with None show ?thesis
      by (simp add: reconcile_char c [symmetric])
  next
    case (Some p)
    then have "\<exists>p \<in> set (scan_order h). conflict ui api p"
      using find_None_iff' [of "conflict ui api" "scan_order h"] by auto
    with Some show ?thesis
      by (simp add: reconcile_char c [symmetric])
  qed
qed

theorem conflict_iff_first_match_witness:
  "candidate_username input_alice \<noteq> [] \<and>
   async_check_and_remove_devices hass_shared input_alice fetched (Some {INVERTER}) =
     (Some entry_bob, hass_shared, [])"
proof -
  have u: "candidate_username input_alice \<noteq> []"
    by (simp add: username_examples)
  have f: "find (\<lambda>(e, d). Some (candidate_username input_alice) \<noteq> unique_id e \<and>
                            serial_in (serial_number d) fetched) (scan_order hass_shared)
           = Some (entry_bob, dev_X)"
    by (simp add: scan_order_examples username_examples serial_in_examples entry_alice_def
        entry_bob_def)
  show ?thesis
    using u f conflict_iff_first_match [OF u, of hass_shared fetched "Some {INVERTER}"]
    by (cases "async_check_and_remove_devices hass_shared input_alice fetched (Some {INVERTER})")
       auto
qed

text \<open>
  C2.  When no device of another account is found in the fetched data, the routine returns
  nothing, and the devices it removes are exactly the devices of entries that are not of
  another account whose serial number is absent from the fetched data or whose recorded type
  lies in the expanded exclusion set.  In the example Alice's devices are A (present, not
  excluded), B (absent) and C (present, of an excluded type): B and C are removed, A stays.
\<close>

theorem no_conflict_marks_exactly_stale:
  assumes "\<not> (\<exists>p \<in> set (scan_order h). conflict ui api p)"
  shows "\<exists>h' removed.
           async_check_and_remove_devices h ui api ex = (None, h', removed) \<and>
           set removed =
             {dev_id d | e d. (e, d) \<in> set (scan_order h) \<and> \<not> other_account ui e \<and>
                (\<not> serial_in (serial_number d) api \<or>
                 type_excluded (expand_excluded ex) (recorded_type api (serial_number d)))} \<and>
           device_registry h' = filter (\<lambda>d. dev_id d \<notin> set removed) (device_registry h) \<and>
           config_entries h' = config_entries h"
proof -
  from assms have n: "find (conflict ui api) (scan_order h) = None"
    by (simp add: find_None_iff')
  show ?thesis
    unfolding set_marked [symmetric]
    using n by (simp add: reconcile_char set_first_occurrences)
qed

theorem no_conflict_marks_exactly_stale_witness:
  "\<not> (\<exists>p \<in> set (scan_order hass_apart). conflict input_alice fetched p) \<and>
   fst (async_check_and_remove_devices hass_apart input_alice fetched (Some {INVERTER})) = None \<and>
   set (snd (snd (async_check_and_remove_devices hass_apart input_alice fetched
                    (Some {INVERTER})))) = {''idB'', ''idC''} \<and>
   device_registry (fst (snd (async_check_and_remove_devices hass_apart input_alice fetched
                    (Some {INVERTER})))) = [dev_A, dev_Y]"
proof -
  have n: "\<not> (\<exists>p \<in> set (scan_order hass_apart). conflict input_alice fetched p)"
    by (simp add: scan_order_examples conflict_def other_account_examples serial_in_examples)
  from no_conflict_marks_exactly_stale [OF n, of "Some {INVERTER}"]
  obtain h' removed where
    r: "async_check_and_remove_devices hass_apart input_alice fetched (Some {INVERTER}) =
          (None, h', removed)"
    and s: "set removed =
          {dev_id d | e d. (e, d) \<in> set (scan_order hass_apart) \<and>
             \<not> other_account input_alice e \<and>
             (\<not> serial_in (serial_number d) fetched \<or>
              type_excluded (expand_excluded (Some {INVERTER}))
                (recorded_type fetched (serial_number d)))}"
    and d: "device_registry h' = filter (\<lambda>d. dev_id d \<notin> set removed) (device_registry hass_apart)"
    by blast
  have "set removed = set [''idB'', ''idC'']"
    unfolding s set_marked [symmetric] expand_inverter marked_examples ..
  then have d': "device_registry h' = [dev_A, dev_Y]"
    unfolding d by (simp only: registry_examples)
  have s': "set removed = {''idB'', ''idC''}"
    using \<open>set removed = set [''idB'', ''idC'']\<close> by simp
  from n r s' d' show ?thesis by simp
qed

text \<open>
  C4, as stated: every device marked obsolete during the scan is removed, however the rest
  of the scan proceeds.  It fails when the scan meets a conflict after it has marked
  devices: in the example B and C of Alice are in \<open>obsolete_user_devs\<close> when the scan
  reaches Bob's device X, the routine returns Bob's entry, and the registry still holds B
  and C; no removal call is made.
\<close>

theorem marked_devices_survive_conflict:
  "scan_cfg_entries hass_shared input_alice fetched (expand_excluded (Some {INVERTER}))
     (async_entries hass_shared DOMAIN) [] =
     (Some entry_bob, [(''idB'', Some ''B''), (''idC'', Some ''C'')]) \<and>
   async_check_and_remove_devices hass_shared input_alice fetched (Some {INVERTER}) =
     (Some entry_bob, hass_shared, []) \<and>
   device_registry hass_shared = [dev_A, dev_B, dev_C, dev_X]"
proof -
  have es: "async_entries hass_shared DOMAIN = [entry_alice, entry_bob]"
    by (simp add: async_entries_def hass_shared_def entry_alice_def entry_bob_def)
  have da: "async_entries_for_config_entry (device_registry hass_shared) (entry_id entry_alice) =
      [dev_A, dev_B, dev_C]"
    by (simp add: async_entries_for_config_entry_def hass_shared_def entry_alice_def
        dev_A_def dev_B_def dev_C_def dev_X_def)
  have db: "async_entries_for_config_entry (device_registry hass_shared) (entry_id entry_bob) =
      [dev_X]"
    by (simp add: async_entries_for_config_entry_def hass_shared_def entry_bob_def
        dev_A_def dev_B_def dev_C_def dev_X_def)
  have ua: "Some ''a@x.com'' = unique_id entry_alice" "Some ''a@x.com'' \<noteq> unique_id entry_bob"
    by (simp_all add: entry_alice_def entry_bob_def)
  have sn: "serial_number dev_B = Some ''B''" "serial_number dev_C = Some ''C''"
    by (simp_all add: dev_B_def dev_C_def)
  have st: "\<not> type_excluded (Some {INVERTER, SYSTEM}) (recorded_type fetched (serial_number dev_A))"
    "type_excluded (Some {INVERTER, SYSTEM}) (recorded_type fetched (serial_number dev_C))"
    using stale_examples(1,3) by (simp_all add: stale_def serial_in_examples)
  have "scan_device_entries input_alice fetched (Some {INVERTER, SYSTEM}) entry_alice
      [dev_A, dev_B, dev_C] [] =
      (None, [(''idB'', serial_number dev_B), (''idC'', serial_number dev_C)])"
    using ua st
    by (simp add: candidate_username_def [symmetric] username_examples serial_in_examples
        dev_id_examples)
  then have scan_a: "scan_device_entries input_alice fetched (Some {INVERTER, SYSTEM})
      entry_alice [dev_A, dev_B, dev_C] [] =
      (None, [(''idB'', Some ''B''), (''idC'', Some ''C'')])"
    by (simp only: sn)
  have scan_b: "scan_device_entries input_alice fetched (Some {INVERTER, SYSTEM}) entry_bob
      [dev_X] obs = (Some entry_bob, obs)" for obs
    using ua
    by (simp add: candidate_username_def [symmetric] username_examples serial_in_examples)
  have scan: "scan_cfg_entries hass_shared input_alice fetched (Some {INVERTER, SYSTEM})
     [entry_alice, entry_bob] [] =
     (Some entry_bob, [(''idB'', Some ''B''), (''idC'', Some ''C'')])"
    by (simp only: scan_cfg_entries.simps da db scan_a scan_b prod.case option.case)
  have r1: "scan_cfg_entries hass_shared input_alice fetched (expand_excluded (Some {INVERTER}))
     (async_entries hass_shared DOMAIN) [] =
     (Some entry_bob, [(''idB'', Some ''B''), (''idC'', Some ''C'')])"
    by (simp only: expand_inverter es scan)
  have r2: "async_check_and_remove_devices hass_shared input_alice fetched (Some {INVERTER}) =
     (Some entry_bob, hass_shared, [])"
    by (simp only: async_check_and_remove_devices_def Let_def r1 prod.case option.case)
  have r3: "device_registry hass_shared = [dev_A, dev_B, dev_C, dev_X]"
    by (simp add: hass_shared_def)
  from r1 r2 r3 show ?thesis by (intro conjI)
qed

text \<open>
  C4, amended.  When the scan completes without a conflict, every device it marked is
  removed from the registry, each once, in the order in which the scan first met them;
  when the scan finds a conflict, the routine returns the entry at once and removes nothing.
\<close>

theorem removal_follows_complete_scan:
  "async_check_and_remove_devices h ui api ex =
     (case find (conflict ui api) (scan_order h) of
        Some p \<Rightarrow> (Some (fst p), h, [])
      | None \<Rightarrow>
          (None,
           h\<lparr>device_registry :=
               filter (\<lambda>d. dev_id d \<notin> set (marked ui api (expand_excluded ex) (scan_order h)))
                 (device_registry h)\<rparr>,
           first_occurrences (marked ui api (expand_excluded ex) (scan_order h))))"
  by (rule reconcile_char)

theorem removal_follows_complete_scan_witness:
  "find (conflict input_alice fetched) (scan_order hass_apart) = None \<and>
   marked input_alice fetched (expand_excluded (Some {INVERTER})) (scan_order hass_apart) =
     [''idB'', ''idC''] \<and>
   async_check_and_remove_devices hass_apart input_alice fetched (Some {INVERTER}) =
     (None, hass_apart\<lparr>device_registry := [dev_A, dev_Y]\<rparr>, [''idB'', ''idC''])"
proof -
  have n: "find (conflict input_alice fetched) (scan_order hass_apart) = None"
    by (simp add: scan_order_examples conflict_def other_account_examples serial_in_examples)
  have m: "marked input_alice fetched (expand_excluded (Some {INVERTER})) (scan_order hass_apart) =
      [''idB'', ''idC'']"
    by (simp only: expand_inverter marked_examples)
  have f: "first_occurrences [''idB'', ''idC''] = [''idB'', ''idC'']"
    by (simp add: first_occurrences_def)
  have "async_check_and_remove_devices hass_apart input_alice fetched (Some {INVERTER}) =
      (None, hass_apart\<lparr>device_registry := [dev_A, dev_Y]\<rparr>, [''idB'', ''idC''])"
    using removal_follows_complete_scan [of hass_apart input_alice fetched "Some {INVERTER}"]
    by (simp only: n m f registry_examples option.case)
  with n m show ?thesis by simp
qed

text \<open>
  C10.  When the candidate username is empty or missing, the routine never returns an
  entry: every registered device of every entry of the domain, whatever the account, is put
  to the test of absence and exclusion, and those that fail it are removed, in scan order.
\<close>

theorem empty_username_never_conflicts:
  assumes "\<not> truthy (map_of ui CONF_USERNAME)"
  shows "\<exists>h' removed.
           async_check_and_remove_devices h ui api ex = (None, h', removed) \<and>
           removed =
             first_occurrences
               (map (\<lambda>p. dev_id (snd p))
                  (filter (\<lambda>p. \<not> serial_in (serial_number (snd p)) api \<or>
                               type_excluded (expand_excluded ex)
                                 (recorded_type api (serial_number (snd p))))
                     (scan_order h))) \<and>
           device_registry h' = filter (\<lambda>d. dev_id d \<notin> set removed) (device_registry h)"
proof -
  from assms have u: "candidate_username ui = []"
    by (simp add: candidate_username_empty)
  then have n: "find (conflict ui api) (scan_order h) = None"
    by (simp add: find_None_iff' conflict_def other_account_def)
  have m: "marked ui api (expand_excluded ex) (scan_order h) =
      map (\<lambda>p. dev_id (snd p))
        (filter (\<lambda>p. \<not> serial_in (serial_number (snd p)) api \<or>
                     type_excluded (expand_excluded ex)
                       (recorded_type api (serial_number (snd p))))
           (scan_order h))"
    using u by (simp add: marked_def other_account_def stale_def)
  show ?thesis
    unfolding m [symmetric]
    by (simp add: reconcile_char n set_first_occurrences)
qed

theorem empty_username_never_conflicts_witness:
  "\<not> truthy (map_of input_nameless CONF_USERNAME) \<and>
   unique_id entry_bob \<noteq> Some (candidate_username input_nameless) \<and>
   async_check_and_remove_devices hass_apart input_nameless fetched (Some {INVERTER}) =
     (None, hass_apart\<lparr>device_registry := [dev_A]\<rparr>, [''idB'', ''idC'', ''idY''])"
proof -
  have t: "\<not> truthy (map_of input_nameless CONF_USERNAME)"
    by (simp add: input_nameless_def CONF_USERNAME_def CONF_PASSWORD_def)
  have b: "unique_id entry_bob \<noteq> Some (candidate_username input_nameless)"
    by (simp add: username_examples entry_bob_def)
  have f: "first_occurrences
      (map (\<lambda>p. dev_id (snd p))
         (filter (\<lambda>p. \<not> serial_in (serial_number (snd p)) fetched \<or>
                      type_excluded (expand_excluded (Some {INVERTER}))
                        (recorded_type fetched (serial_number (snd p))))
            (scan_order hass_apart))) = [''idB'', ''idC'', ''idY'']"
    unfolding stale_def [symmetric] expand_inverter
    by (simp add: scan_order_examples stale_examples dev_id_examples first_occurrences_def)
  from empty_username_never_conflicts [OF t, of hass_apart fetched "Some {INVERTER}"]
  obtain h' removed where
    a: "async_check_and_remove_devices hass_apart input_nameless fetched (Some {INVERTER}) =
          (None, h', removed)"
    and rm: "removed = [''idB'', ''idC'', ''idY'']"
    and d: "device_registry h' = filter (\<lambda>d. dev_id d \<notin> set removed) (device_registry hass_apart)"
    unfolding f by blast
  have c: "config_entries h' = config_entries hass_apart"
    using a by (auto simp add: reconcile_char split: option.splits)
  have "device_registry h' = [dev_A]"
    unfolding d rm by (simp only: registry_examples)
  with c have "h' = hass_apart\<lparr>device_registry := [dev_A]\<rparr>"
    by simp
  with t b a rm show ?thesis by simp
qed

section \<open>Properties of the wizard and of the options editor\<close>

lemma accept_terms_truthy:
  "truthy (Some (case map_of ui k of None \<Rightarrow> Text [] | Some v \<Rightarrow> v)) = truthy (map_of ui k)"
  by (cases "map_of ui k") simp_all

lemma map_of_Some_nonempty: "map_of ui k = Some v \<Longrightarrow> ui \<noteq> []"
  by auto

lemma keys_differ:
  "TERMS_LINK \<noteq> ERROR_DETAIL" "ERROR_DETAIL \<noteq> TERMS_LINK"
  "CONF_USERNAME \<noteq> EXAMPLESFOLDER" "EXAMPLESFOLDER \<noteq> CONF_USERNAME"
  by (simp_all add: TERMS_LINK_def ERROR_DETAIL_def CONF_USERNAME_def EXAMPLESFOLDER_def)

lemma step_user_raised:
  assumes "truthy (map_of ui ACCEPT_TERMS)" and "ui \<noteq> []"
    and "try_block cl f h ui = (Raised e, f', h', evs)"
  shows "async_step_user cl f h (Some ui) =
           (Show_form ''user'' [(''base'', fst (handle_exn e))]
              [(TERMS_LINK, TC_LINK), (ERROR_DETAIL, snd (handle_exn e))], f', h', evs)"
  using assms by (simp add: async_step_user_def accept_terms_truthy keys_differ)

lemma step_user_options_None: "async_step_user_options f None = (Show_form ''user_options'' [] [], f)"
  by (simp add: async_step_user_options_def)

lemma async_set_unique_id_None_iff:
  "async_set_unique_id h uid = None \<longleftrightarrow>
     \<not> (\<exists>e \<in> set (async_entries h DOMAIN). unique_id e = Some uid)"
  by (simp add: async_set_unique_id_def find_None_iff')

lemma try_block_configured:
  assumes "map_of ui CONF_USERNAME = Some (Text u)"
    and "\<exists>e \<in> set (async_entries h DOMAIN). unique_id e = Some (lower u)"
  shows "try_block cl f h ui =
           (Raised (AbortFlow ''already_configured''), f\<lparr>flow_unique_id := Some (lower u)\<rparr>, h, [])"
proof -
  from assms(2) obtain e where "async_set_unique_id h (lower u) = Some e"
    using async_set_unique_id_None_iff [of h "lower u"] by (cases "async_set_unique_id h (lower u)") auto
  with assms(1) show ?thesis
    by (simp add: try_block_def abort_if_unique_id_configured_def)
qed

text \<open>
  C6.  The claim: a submission whose lower-cased username is the unique id of an existing
  entry aborts the flow, a terminal outcome that is no form error.  The code calls
  \<open>_abort_if_unique_id_configured\<close> inside the \<open>try\<close> block, whose last clause catches
  every \<open>Exception\<close>, the abort signal among them.  So the step does not abort: it shows
  the credential form again with the catch-all error.  No authentication is attempted,
  the host is unchanged and no entry is created, as the claim says.
\<close>

theorem already_configured_redisplays_form:
  assumes "truthy (map_of ui ACCEPT_TERMS)"
    and "map_of ui CONF_USERNAME = Some (Text u)"
    and "\<exists>e \<in> set (async_entries h DOMAIN). unique_id e = Some (lower u)"
  shows "async_step_user cl f h (Some ui) =
           (Show_form ''user'' [(''base'', ''unknown'')]
              [(TERMS_LINK, TC_LINK),
               (ERROR_DETAIL,
                ''Exception '' @ type_str (AbortFlow ''already_configured'') @
                '': Flow aborted: already_configured'')],
            f\<lparr>flow_unique_id := Some (lower u)\<rparr>, h, [])"
  using step_user_raised [OF assms(1) map_of_Some_nonempty [OF assms(2)]
      try_block_configured [OF assms(2,3)]]
  by simp

lemma input_alice_lookups:
  "map_of input_alice CONF_USERNAME = Some (Text ''A@x.com'')"
  "truthy (map_of input_alice ACCEPT_TERMS)"
  by (simp_all add: input_alice_def CONF_USERNAME_def CONF_PASSWORD_def CONF_COUNTRY_CODE_def
      ACCEPT_TERMS_def)

lemma input_carol_lookups:
  "map_of input_carol CONF_USERNAME = Some (Text ''c@z.com'')"
  "truthy (map_of input_carol ACCEPT_TERMS)"
  by (simp_all add: input_carol_def CONF_USERNAME_def CONF_PASSWORD_def CONF_COUNTRY_CODE_def
      ACCEPT_TERMS_def)

lemma entries_hass_alice: "async_entries hass_alice DOMAIN = [entry_alice]"
  by (simp add: async_entries_def hass_alice_def entry_alice_def)

theorem already_configured_redisplays_form_witness:
  "truthy (map_of input_alice ACCEPT_TERMS) \<and>
   map_of input_alice CONF_USERNAME = Some (Text ''A@x.com'') \<and>
   unique_id entry_alice = Some (lower ''A@x.com'') \<and>
   fst (async_step_user cloud_ok fresh_flow hass_alice (Some input_alice)) =
     Show_form ''user'' [(''base'', ''unknown'')]
       [(TERMS_LINK, TC_LINK),
        (ERROR_DETAIL,
         ''Exception '' @ type_str (AbortFlow ''already_configured'') @
         '': Flow aborted: already_configured'')] \<and>
   snd (snd (async_step_user cloud_ok fresh_flow hass_alice (Some input_alice))) =
     (hass_alice, [])"
proof -
  have u: "unique_id entry_alice = Some (lower ''A@x.com'')"
    by (simp add: entry_alice_def lower_examples)
  then have e: "\<exists>e \<in> set (async_entries hass_alice DOMAIN). unique_id e = Some (lower ''A@x.com'')"
    by (simp add: entries_hass_alice)
  show ?thesis
    using already_configured_redisplays_form [OF input_alice_lookups(2,1) e, of cloud_ok fresh_flow]
      input_alice_lookups u
    by simp
qed

text \<open>
  C8.  An options submission (a bag that is not empty) in which test mode is on and the test
  folder is empty gives the form again with an error on the test-folder field, in the
  options step of the wizard and in the options editor alike, and creates nothing; every
  other submission is persisted: as a new entry by the wizard, as the options of the entry
  by the editor.
\<close>

theorem test_folder_validation:
  assumes "opts \<noteq> []"
  shows "fst (async_step_user_options f (Some opts)) =
           (if opt_truthy (map_of opts TESTMODE) \<and> \<not> opt_truthy (map_of opts TESTFOLDER)
            then Show_form ''user_options'' [(TESTFOLDER, ''folder_invalid'')] []
            else Create_entry
                   (case client f of
                      Some c \<Rightarrow> Some (Text (nickname c))
                    | None \<Rightarrow> map_of (data f) CONF_USERNAME)
                   (data f) opts) \<and>
         async_step_init (Some opts) =
           (if opt_truthy (map_of opts TESTMODE) \<and> \<not> opt_truthy (map_of opts TESTFOLDER)
            then Show_form ''init'' [(TESTFOLDER, ''folder_invalid'')] []
            else Create_options [] opts)"
  using assms
  by (auto simp: async_step_user_options_def async_step_init_def Let_def split: option.splits)

theorem test_folder_validation_witness:
  "options_no_folder \<noteq> [] \<and>
   opt_truthy (map_of options_no_folder TESTMODE) \<and>
   \<not> opt_truthy (map_of options_no_folder TESTFOLDER) \<and>
   fst (async_step_user_options fresh_flow (Some options_no_folder)) =
     Show_form ''user_options'' [(TESTFOLDER, ''folder_invalid'')] [] \<and>
   async_step_init (Some options_no_folder) =
     Show_form ''init'' [(TESTFOLDER, ''folder_invalid'')] []"
proof -
  have n: "options_no_folder \<noteq> []"
    by (simp add: options_no_folder_def)
  have t: "opt_truthy (map_of options_no_folder TESTMODE)"
    "\<not> opt_truthy (map_of options_no_folder TESTFOLDER)"
    by (simp_all add: options_no_folder_def TESTMODE_def TESTFOLDER_def)
  show ?thesis
    using test_folder_validation [OF n, of fresh_flow] n t by simp
qed

lemma try_block_auth_fails:
  assumes "map_of ui CONF_USERNAME = Some (Text u)"
    and "async_set_unique_id h (lower u) = None"
    and "authenticate cl ui = Inl e"
  shows "try_block cl f h ui =
           (Raised e, f\<lparr>flow_unique_id := Some (lower u)\<rparr>, h, [Authenticate ui])"
  using assms by (simp add: try_block_def authenticate_client_def)

lemma try_block_fetch_fails:
  assumes "map_of ui CONF_USERNAME = Some (Text u)"
    and "async_set_unique_id h (lower u) = None"
    and "authenticate cl ui = Inr c"
    and "update_sites cl c = Inl e"
  shows "try_block cl f h ui =
           (Raised e, f\<lparr>flow_unique_id := Some (lower u), client := Some c\<rparr>, h,
            [Authenticate ui, Update_sites])"
  using assms by (simp add: try_block_def authenticate_client_def fetch_and_check_def)

lemma handle_exn_cases:
  "fst (handle_exn e) =
     (case e of
        AnkerSolixApiClientAuthenticationError m \<Rightarrow> ''auth''
      | AnkerSolixApiClientCommunicationError m \<Rightarrow> ''connection''
      | AnkerSolixApiClientRetryExceededError m \<Rightarrow> ''exceeded''
      | _ \<Rightarrow> ''unknown'')"
  "snd (handle_exn e) =
     (case e of
        AnkerSolixApiClientAuthenticationError m \<Rightarrow> m
      | AnkerSolixApiClientCommunicationError m \<Rightarrow> m
      | AnkerSolixApiClientRetryExceededError m \<Rightarrow> m
      | _ \<Rightarrow> ''Exception '' @ type_str e @ '': '' @ exn_str e)"
  by (cases e; simp)+

text \<open>
  C9.  When the authentication or the fetch of the site data fails, the credential form is
  shown again.  The authentication, communication and retry-exceeded failures give the
  errors \<open>auth\<close>, \<open>connection\<close> and \<open>exceeded\<close>, any other exception gives
  \<open>unknown\<close>; the four differ, and the placeholders carry a text for the failure under
  \<open>ERROR_DETAIL\<close>.
\<close>

theorem failures_return_to_credential_form:
  assumes "truthy (map_of ui ACCEPT_TERMS)"
    and "map_of ui CONF_USERNAME = Some (Text u)"
    and "async_set_unique_id h (lower u) = None"
    and "authenticate cl ui = Inl e \<or>
         (\<exists>c. authenticate cl ui = Inr c \<and> update_sites cl c = Inl e)"
  shows "fst (async_step_user cl f h (Some ui)) =
           Show_form ''user''
             [(''base'',
               (case e of
                  AnkerSolixApiClientAuthenticationError m \<Rightarrow> ''auth''
                | AnkerSolixApiClientCommunicationError m \<Rightarrow> ''connection''
                | AnkerSolixApiClientRetryExceededError m \<Rightarrow> ''exceeded''
                | _ \<Rightarrow> ''unknown''))]
             [(TERMS_LINK, TC_LINK),
              (ERROR_DETAIL,
               (case e of
                  AnkerSolixApiClientAuthenticationError m \<Rightarrow> m
                | AnkerSolixApiClientCommunicationError m \<Rightarrow> m
                | AnkerSolixApiClientRetryExceededError m \<Rightarrow> m
                | _ \<Rightarrow> ''Exception '' @ type_str e @ '': '' @ exn_str e))] \<and>
         distinct [''auth'', ''connection'', ''exceeded'', ''unknown'']"
proof -
  note ne = map_of_Some_nonempty [OF assms(2)]
  from assms(4) obtain f' evs where "try_block cl f h ui = (Raised e, f', h, evs)"
    using try_block_auth_fails [OF assms(2,3)] try_block_fetch_fails [OF assms(2,3)]
    by blast
  from step_user_raised [OF assms(1) ne this] show ?thesis
    by (simp add: handle_exn_cases)
qed

theorem failures_return_to_credential_form_witness:
  "truthy (map_of input_carol ACCEPT_TERMS) \<and>
   map_of input_carol CONF_USERNAME = Some (Text ''c@z.com'') \<and>
   async_set_unique_id hass_alice (lower ''c@z.com'') = None \<and>
   authenticate cloud_down input_carol = Inl (AnkerSolixApiClientCommunicationError ''timeout'') \<and>
   fst (async_step_user cloud_down fresh_flow hass_alice (Some input_carol)) =
     Show_form ''user'' [(''base'', ''connection'')]
       [(TERMS_LINK, TC_LINK), (ERROR_DETAIL, ''timeout'')]"
proof -
  have s: "async_set_unique_id hass_alice (lower ''c@z.com'') = None"
    by (simp add: async_set_unique_id_def entries_hass_alice entry_alice_def lower_examples)
  have a: "authenticate cloud_down input_carol =
      Inl (AnkerSolixApiClientCommunicationError ''timeout'')"
    by (simp add: cloud_down_def)
  then have d: "authenticate cloud_down input_carol =
        Inl (AnkerSolixApiClientCommunicationError ''timeout'') \<or>
      (\<exists>c. authenticate cloud_down input_carol = Inr c \<and>
           update_sites cloud_down c = Inl (AnkerSolixApiClientCommunicationError ''timeout''))"
    by simp
  show ?thesis
    using failures_return_to_credential_form [OF input_carol_lookups(2,1) s d, of fresh_flow]
      input_carol_lookups s a
    by simp
qed

lemma try_block_proceed:
  assumes "try_block cl f h ui = (Proceed, f', h', evs)"
  shows "\<exists>c0 c. authenticate cl ui = Inr c0 \<and> update_sites cl c0 = Inr c \<and>
           client f' = Some c \<and>
           data f' = AList.update EXAMPLESFOLDER (Text (examplesfolder f)) ui"
  using assms
  by (auto simp: try_block_def fetch_and_check_def authenticate_client_def
      abort_if_unique_id_configured_def Let_def
      split: field.splits option.splits sum.splits prod.splits)

lemma step_user_options_reached:
  assumes "async_step_user cl f h (Some ui) = (Show_form ''user_options'' errs phs, f1, h1, evs)"
  shows "try_block cl f h ui = (Proceed, f1, h1, evs)"
  using assms
  by (auto simp: async_step_user_def step_user_options_None Let_def
      split: if_splits prod.splits try_end.splits)

text \<open>
  C7, amended.  When the credential step has led to the options step and a valid options
  bag is submitted, the handler holds the client that was authenticated and refreshed in
  that submission, and the entry created has the display name of that account as its title,
  empty or not; the submitted input plus the path of the examples folder as its data; and
  the submitted bag as its options.  The username is never the title of such an entry: the
  code takes it only when the handler holds no client.
\<close>

theorem created_entry_contents:
  assumes "async_step_user cl f h (Some ui) = (Show_form ''user_options'' errs phs, f1, h1, evs)"
    and "opts \<noteq> []"
    and "opt_truthy (map_of opts TESTFOLDER) \<or> \<not> opt_truthy (map_of opts TESTMODE)"
  shows "\<exists>c0 c. authenticate cl ui = Inr c0 \<and> update_sites cl c0 = Inr c \<and>
           client f1 = Some c \<and>
           fst (async_step_user_options f1 (Some opts)) =
             Create_entry (Some (Text (nickname c)))
               (AList.update EXAMPLESFOLDER (Text (examplesfolder f)) ui) opts"
proof -
  from try_block_proceed [OF step_user_options_reached [OF assms(1)]]
  obtain c0 c where a: "authenticate cl ui = Inr c0" and u: "update_sites cl c0 = Inr c"
    and c: "client f1 = Some c"
    and d: "data f1 = AList.update EXAMPLESFOLDER (Text (examplesfolder f)) ui"
    by blast
  have "fst (async_step_user_options f1 (Some opts)) =
      Create_entry (Some (Text (nickname c)))
        (AList.update EXAMPLESFOLDER (Text (examplesfolder f)) ui) opts"
    using assms(2,3) c d by (auto simp: async_step_user_options_def Let_def)
  with a u c show ?thesis by blast
qed

lemma reconcile_carol:
  "async_check_and_remove_devices hass_alice input_carol Map.empty None =
     (None, hass_alice, [])"
proof -
  have n: "find (conflict input_carol Map.empty) (scan_order hass_alice) = None"
    by (simp add: find_None_iff' conflict_def serial_in_def split: option.splits)
  have u: "candidate_username input_carol = ''c@z.com''"
    by (simp add: candidate_username_def input_carol_lookups lower_examples)
  have o: "other_account input_carol entry_alice"
    by (simp add: other_account_def u entry_alice_def)
  have m: "marked input_carol Map.empty (expand_excluded None)
      (scan_order hass_alice) = []"
    by (simp add: marked_def scan_order_examples o)
  show ?thesis
    by (simp add: reconcile_char n m first_occurrences_def)
qed

lemma step_user_carol:
  "async_step_user cloud_ok fresh_flow hass_alice (Some input_carol) =
     (Show_form ''user_options'' [] [],
      fresh_flow\<lparr>flow_unique_id := Some ''c@z.com'', client := Some session_carol,
         data := AList.update EXAMPLESFOLDER (Text ''/config/examples'') input_carol\<rparr>,
      hass_alice, [Authenticate input_carol, Update_sites])"
proof -
  have s: "async_set_unique_id hass_alice ''c@z.com'' = None"
    by (simp add: async_set_unique_id_def entries_hass_alice entry_alice_def)
  have ne: "input_carol \<noteq> []"
    by (simp add: input_carol_def)
  have t: "try_block cloud_ok fresh_flow hass_alice input_carol =
     (Proceed,
      fresh_flow\<lparr>flow_unique_id := Some ''c@z.com'', client := Some session_carol,
         data := AList.update EXAMPLESFOLDER (Text ''/config/examples'') input_carol\<rparr>,
      hass_alice, [Authenticate input_carol, Update_sites])"
    by (simp add: try_block_def input_carol_lookups lower_examples s authenticate_client_def
        cloud_ok_def fetch_and_check_def session_carol_def [symmetric])
       (simp add: session_carol_def reconcile_carol fresh_flow_def)
  show ?thesis
    using ne
    by (simp add: async_step_user_def accept_terms_truthy input_carol_lookups t
        step_user_options_None)
qed

lemma step_user_nameless:
  "async_step_user cloud_nameless fresh_flow hass_alice (Some input_carol) =
     (Show_form ''user_options'' [] [],
      fresh_flow\<lparr>flow_unique_id := Some ''c@z.com'', client := Some session_nameless,
         data := AList.update EXAMPLESFOLDER (Text ''/config/examples'') input_carol\<rparr>,
      hass_alice, [Authenticate input_carol, Update_sites])"
proof -
  have s: "async_set_unique_id hass_alice ''c@z.com'' = None"
    by (simp add: async_set_unique_id_def entries_hass_alice entry_alice_def)
  have ne: "input_carol \<noteq> []"
    by (simp add: input_carol_def)
  have t: "try_block cloud_nameless fresh_flow hass_alice input_carol =
     (Proceed,
      fresh_flow\<lparr>flow_unique_id := Some ''c@z.com'', client := Some session_nameless,
         data := AList.update EXAMPLESFOLDER (Text ''/config/examples'') input_carol\<rparr>,
      hass_alice, [Authenticate input_carol, Update_sites])"
    by (simp add: try_block_def input_carol_lookups lower_examples s authenticate_client_def
        cloud_nameless_def fetch_and_check_def session_nameless_def [symmetric])
       (simp add: session_nameless_def reconcile_carol fresh_flow_def)
  show ?thesis
    using ne
    by (simp add: async_step_user_def accept_terms_truthy input_carol_lookups t
        step_user_options_None)
qed

lemma options_plain_valid:
  "options_plain \<noteq> []" "\<not> opt_truthy (map_of options_plain TESTMODE)"
  by (simp_all add: options_plain_def TESTMODE_def)

text \<open>
  C7, as stated: the title of the created entry is the display name of the account,
  falling back to the submitted username.  It fails for an account without a display name:
  the wizard completes, and the entry gets the empty display name as its title, not the
  submitted username.
\<close>

theorem empty_display_name_is_kept:
  "nickname session_nameless = [] \<and>
   map_of input_carol CONF_USERNAME = Some (Text ''c@z.com'') \<and>
   fst (async_step_user cloud_nameless fresh_flow hass_alice (Some input_carol)) =
     Show_form ''user_options'' [] [] \<and>
   fst (async_step_user_options
          (fst (snd (async_step_user cloud_nameless fresh_flow hass_alice (Some input_carol))))
          (Some options_plain)) =
     Create_entry (Some (Text []))
       (AList.update EXAMPLESFOLDER (Text ''/config/examples'') input_carol) options_plain \<and>
   Some (Text []) \<noteq> map_of input_carol CONF_USERNAME"
proof -
  have "fst (async_step_user_options
          (fresh_flow\<lparr>flow_unique_id := Some ''c@z.com'', client := Some session_nameless,
             data := AList.update EXAMPLESFOLDER (Text ''/config/examples'') input_carol\<rparr>)
          (Some options_plain)) =
     Create_entry (Some (Text []))
       (AList.update EXAMPLESFOLDER (Text ''/config/examples'') input_carol) options_plain"
    using options_plain_valid
    by (simp add: async_step_user_options_def session_nameless_def)
  then show ?thesis
    by (simp add: step_user_nameless input_carol_lookups session_nameless_def)
qed

theorem created_entry_contents_witness:
  "fst (async_step_user cloud_ok fresh_flow hass_alice (Some input_carol)) =
     Show_form ''user_options'' [] [] \<and>
   options_plain \<noteq> [] \<and>
   \<not> opt_truthy (map_of options_plain TESTMODE) \<and>
   authenticate cloud_ok input_carol = Inr session_carol \<and>
   update_sites cloud_ok session_carol = Inr session_carol \<and>
   fst (async_step_user_options
          (fst (snd (async_step_user cloud_ok fresh_flow hass_alice (Some input_carol))))
          (Some options_plain)) =
     Create_entry (Some (Text ''Carol''))
       (AList.update EXAMPLESFOLDER (Text ''/config/examples'') input_carol) options_plain"
proof -
  note n = options_plain_valid(1) and t = options_plain_valid(2)
  from t have v: "opt_truthy (map_of options_plain TESTFOLDER) \<or>
      \<not> opt_truthy (map_of options_plain TESTMODE)"
    by simp
  have c: "authenticate cloud_ok input_carol = Inr session_carol"
    "update_sites cloud_ok session_carol = Inr session_carol"
    by (simp_all add: cloud_ok_def)
  from created_entry_contents [OF step_user_carol n v]
  have "fst (async_step_user_options
          (fresh_flow\<lparr>flow_unique_id := Some ''c@z.com'', client := Some session_carol,
             data := AList.update EXAMPLESFOLDER (Text ''/config/examples'') input_carol\<rparr>)
          (Some options_plain)) =
     Create_entry (Some (Text ''Carol''))
       (AList.update EXAMPLESFOLDER (Text ''/config/examples'') input_carol) options_plain"
    using c by (auto simp: session_carol_def fresh_flow_def)
  with n t c show ?thesis
    by (simp add: step_user_carol)
qed

end
